theory Spec2Isabelle
  imports Main "HOL-Library.Char_ord" "HOL-Library.List_Lexorder"
begin

section \<open>Rows of the remote store\<close>

text \<open>
  The portal reads three tables and the user directory of its backend, and writes to one
  table and one bucket of the object store. A table is the list of its rows in the order
  the store returns them when a query asks for no order. Identifiers are strings, a
  string is the list of the bytes of its UTF-8 form, and timestamps are milliseconds
  since the epoch.
  \<open>requested_at\<close> is the creation time the store keeps for a request; no query of the
  pages reads it.
\<close>

record user =
  uid :: string
  email :: string
  role :: "string option"
  full_name :: string

record user_request =
  request_id :: string
  user_id :: string
  status :: string
  requested_at :: nat

record admin_access_row =
  accessed_user_id :: string
  accessed_at :: nat
  access_reason :: "string option"

record message =
  message_id :: string
  sender_id :: string
  receiver_id :: string
  content :: string
  image_url :: "string option"
  created_at :: nat

text \<open>A file the user picked, and the bucket \<open>message-images\<close>: objects by their paths.\<close>

record attachment =
  file_name :: string

record backend =
  user_requests :: "user_request list"
  admin_access :: "admin_access_row list"
  messages_tbl :: "message list"
  users_dir :: "user list"
  message_images :: "(string \<times> attachment) list"

section \<open>The query client\<close>

text \<open>
  Every call of the client resolves to a pair of \<open>data\<close> and \<open>error\<close>; it never throws.
  The source reads both fields, so the model keeps both.
\<close>

record 'a response =
  data :: "'a option"
  error :: "string option"

definition ok :: "'a \<Rightarrow> 'a response" where
  "ok x = \<lparr>data = Some x, error = None\<rparr>"

definition empty_ok :: "'a response" where
  "empty_ok = \<lparr>data = None, error = None\<rparr>"

definition failed :: "string \<Rightarrow> 'a response" where
  "failed e = \<lparr>data = None, error = Some e\<rparr>"

text \<open>\<open>.maybeSingle()\<close>: no row is fine, one row is the data, several rows are an error.\<close>

fun maybeSingle :: "'a list \<Rightarrow> 'a response" where
  "maybeSingle [] = empty_ok"
| "maybeSingle [r] = ok r"
| "maybeSingle (r # r' # rs) = failed ''PGRST116''"

text \<open>\<open>.single()\<close>: exactly one row, anything else is an error.\<close>

fun single :: "'a list \<Rightarrow> 'a response" where
  "single [] = failed ''PGRST116''"
| "single [r] = ok r"
| "single (r # r' # rs) = failed ''PGRST116''"

definition limit :: "nat \<Rightarrow> 'a list \<Rightarrow> 'a list" where
  "limit n rows = take n rows"

text \<open>
  \<open>.order(column, { ascending })\<close>. Rows with equal keys stay in the order the store
  holds them (ascending) or in its reverse (descending): the query names no second key.
\<close>

definition order :: "('a \<Rightarrow> nat) \<Rightarrow> bool \<Rightarrow> 'a list \<Rightarrow> 'a list" where
  "order column ascending rows =
     (if ascending then sort_key column rows else rev (sort_key column rows))"

text \<open>A call that does not reach the backend resolves to an error and no data.\<close>

definition transport :: "bool \<Rightarrow> 'a response \<Rightarrow> 'a response" where
  "transport reached r = (if reached then r else failed ''FetchError'')"

text \<open>JavaScript's \<open>s || null\<close> on a nullable string: the empty string is falsy.\<close>

fun or_null :: "string option \<Rightarrow> string option" where
  "or_null None = None"
| "or_null (Some s) = (if s = [] then None else Some s)"

section \<open>Side effects\<close>

datatype toast_type = success | error_toast

datatype effect =
    Toast toast_type string "string option"
  | Navigate string
  | ConsoleError string

section \<open>Dashboard: the duplicate-toast guard\<close>

text \<open>
  \<open>shownToasts\<close> is the module-level set; \<open>timers\<close> are the pending \<open>setTimeout\<close>
  callbacks, each with the time it is due and the key it deletes; \<open>shown\<close> is the
  sequence of calls made to the toast library.
\<close>

record toaster =
  shownToasts :: "string set"
  timers :: "(nat \<times> string) list"
  shown :: "effect list"

definition toaster_init :: toaster where
  "toaster_init = \<lparr>shownToasts = {}, timers = [], shown = []\<rparr>"

definition toast_key :: "string \<Rightarrow> string option \<Rightarrow> string" where
  "toast_key message ident =
     (case ident of None \<Rightarrow> message | Some i \<Rightarrow> if i = [] then message else i)"

definition showUniqueToast ::
  "nat \<Rightarrow> string \<Rightarrow> toast_type \<Rightarrow> string option \<Rightarrow> toaster \<Rightarrow> toaster" where
  "showUniqueToast now message type ident s =
     (let toastId = toast_key message ident in
      if toastId \<notin> shownToasts s
      then s\<lparr>shownToasts := insert toastId (shownToasts s),
             shown := shown s @ [Toast type message (Some toastId)],
             timers := timers s @ [(now + 5000, toastId)]\<rparr>
      else s)"

text \<open>The event loop at time \<open>now\<close>: every callback that is due has run and is gone.\<close>

definition due :: "nat \<Rightarrow> nat \<times> string \<Rightarrow> bool" where
  "due now t = (fst t \<le> now)"

definition run_timers :: "nat \<Rightarrow> toaster \<Rightarrow> toaster" where
  "run_timers now s =
     s\<lparr>shownToasts := shownToasts s - snd ` set (filter (due now) (timers s)),
       timers := filter (\<lambda>t. \<not> due now t) (timers s)\<rparr>"

definition notify_at ::
  "nat \<Rightarrow> string \<Rightarrow> toast_type \<Rightarrow> string option \<Rightarrow> toaster \<Rightarrow> toaster" where
  "notify_at now message type ident s = showUniqueToast now message type ident (run_timers now s)"

fun has_key :: "string \<Rightarrow> effect \<Rightarrow> bool" where
  "has_key k (Toast _ _ i) = (i = Some k)"
| "has_key k _ = False"

definition alerts :: "string \<Rightarrow> toaster \<Rightarrow> nat" where
  "alerts k s = length (filter (has_key k) (shown s))"

text \<open>
  Every key of the set has its one pending callback and every pending callback has its
  key in the set: what \<open>showUniqueToast\<close> and the callbacks keep true from the empty set.
\<close>

definition guarded :: "toaster \<Rightarrow> bool" where
  "guarded s = (shownToasts s = snd ` set (timers s) \<and> distinct (map snd (timers s)))"

section \<open>Dashboard: the status check\<close>

record dashboard_state =
  hasRequest :: bool
  applicationStatus :: "string option"
  rejectionReason :: "string option"

definition dashboard_init :: dashboard_state where
  "dashboard_init = \<lparr>hasRequest = False, applicationStatus = None, rejectionReason = None\<rparr>"

type_synonym run = "dashboard_state \<times> effect list"

definition emit :: "effect \<Rightarrow> 'st \<times> effect list \<Rightarrow> 'st \<times> effect list" where
  "emit e r = (fst r, snd r @ [e])"

text \<open>The three queries of \<open>checkStatus\<close>, as the backend answers them.\<close>

definition request_query :: "user \<Rightarrow> backend \<Rightarrow> string response" where
  "request_query u db =
     maybeSingle (map request_id (filter (\<lambda>r. user_id r = uid u) (user_requests db)))"

definition status_query :: "user \<Rightarrow> backend \<Rightarrow> string response" where
  "status_query u db =
     single (map status (filter (\<lambda>r. user_id r = uid u) (user_requests db)))"

definition audit_trail :: "user \<Rightarrow> backend \<Rightarrow> admin_access_row list" where
  "audit_trail u db = filter (\<lambda>a. accessed_user_id a = uid u) (admin_access db)"

definition access_query :: "user \<Rightarrow> backend \<Rightarrow> string option response" where
  "access_query u db =
     single (limit 1 (map access_reason (order accessed_at False (audit_trail u db))))"

text \<open>The \<open>catch\<close> block of \<open>checkStatus\<close>.\<close>

definition caught :: "run \<Rightarrow> run" where
  "caught r = emit (ConsoleError ''Error checking application status:'') r"

text \<open>
  \<open>checkStatus\<close> suspends at each query; what it does when a response arrives is one
  function per query. The second component tells whether the invocation carries on
  (\<open>False\<close> and \<open>None\<close> end it) and, after the status query, which status was read.
\<close>

definition after_request :: "string response \<Rightarrow> run \<Rightarrow> run \<times> bool" where
  "after_request requests r =
     (case error requests of
        Some e \<Rightarrow> (caught r, False)
      | None \<Rightarrow> ((fst r\<lparr>hasRequest := (data requests \<noteq> None)\<rparr>, snd r), data requests \<noteq> None))"

definition after_status :: "string response \<Rightarrow> run \<Rightarrow> run \<times> string option option" where
  "after_status res r =
     (case error res of
        Some e \<Rightarrow> (caught r, None)
      | None \<Rightarrow> ((fst r\<lparr>applicationStatus := or_null (data res)\<rparr>, snd r), Some (data res)))"

definition after_access :: "string option response \<Rightarrow> run \<Rightarrow> run" where
  "after_access res r =
     (fst r\<lparr>rejectionReason := or_null (case data res of None \<Rightarrow> None | Some a \<Rightarrow> a)\<rparr>, snd r)"

definition announce :: "string option \<Rightarrow> run \<Rightarrow> run" where
  "announce st r =
     (if st = Some ''approved''
      then emit (Toast success ''Your application has been approved!'' None) r
      else if st = Some ''rejected''
      then emit (Navigate ''/'')
             (emit (Toast error_toast ''Your application has been rejected.'' None) r)
      else r)"

text \<open>\<open>reach i\<close> tells whether the \<open>i\<close>-th query of this invocation reaches the backend.\<close>

definition checkStatus :: "user option \<Rightarrow> backend \<Rightarrow> (nat \<Rightarrow> bool) \<Rightarrow> run \<Rightarrow> run" where
  "checkStatus usr db reach r =
     (case usr of
        None \<Rightarrow> r
      | Some u \<Rightarrow>
          (case after_request (transport (reach 0) (request_query u db)) r of
             (r1, False) \<Rightarrow> r1
           | (r1, True) \<Rightarrow>
               (case after_status (transport (reach 1) (status_query u db)) r1 of
                  (r2, None) \<Rightarrow> r2
                | (r2, Some st) \<Rightarrow>
                    announce st
                      (if st = Some ''rejected''
                       then after_access (transport (reach 2) (access_query u db)) r2
                       else r2))))"

text \<open>
  The polling effect: \<open>checkStatus\<close> at once, then an interval of 30 seconds; the
  cleanup clears the interval. Nothing else touches the interval.
\<close>

record tracker =
  view :: dashboard_state
  emitted :: "effect list"
  polling :: bool

definition tracker_init :: tracker where
  "tracker_init = \<lparr>view = dashboard_init, emitted = [], polling = False\<rparr>"

definition reconcile :: "user option \<Rightarrow> backend \<times> (nat \<Rightarrow> bool) \<Rightarrow> tracker \<Rightarrow> tracker" where
  "reconcile usr w t =
     (let r = checkStatus usr (fst w) (snd w) (view t, emitted t)
      in t\<lparr>view := fst r, emitted := snd r\<rparr>)"

definition activate :: "user option \<Rightarrow> backend \<times> (nat \<Rightarrow> bool) \<Rightarrow> tracker \<Rightarrow> tracker" where
  "activate usr w t = (reconcile usr w t)\<lparr>polling := True\<rparr>"

definition tick :: "user option \<Rightarrow> backend \<times> (nat \<Rightarrow> bool) \<Rightarrow> tracker \<Rightarrow> tracker" where
  "tick usr w t = (if polling t then reconcile usr w t else t)"

definition deactivate :: "tracker \<Rightarrow> tracker" where
  "deactivate t = t\<lparr>polling := False\<rparr>"

fun ticks :: "user option \<Rightarrow> (backend \<times> (nat \<Rightarrow> bool)) list \<Rightarrow> tracker \<Rightarrow> tracker" where
  "ticks usr [] t = t"
| "ticks usr (w # ws) t = ticks usr ws (tick usr w t)"

fun is_success :: "effect \<Rightarrow> bool" where
  "is_success (Toast success _ _) = True"
| "is_success _ = False"

text \<open>
  The page has a second effect, apart from the invocations of \<open>checkStatus\<close>: after a
  render in which \<open>hasRequest\<close> or \<open>applicationStatus\<close> changed it navigates home when
  the request is rejected.
\<close>

definition redirect_effect :: "dashboard_state \<Rightarrow> effect list" where
  "redirect_effect st =
     (if hasRequest st \<and> applicationStatus st = Some ''rejected'' then [Navigate ''/''] else [])"

text \<open>
  A render of the mounted page after a state update: the effect runs when one of its
  dependencies differs from the render before.
\<close>

definition render :: "dashboard_state \<Rightarrow> run \<Rightarrow> run" where
  "render before r =
     (if hasRequest (fst r) = hasRequest before
         \<and> applicationStatus (fst r) = applicationStatus before
      then r
      else (fst r, snd r @ redirect_effect (fst r)))"

text \<open>
  \<open>checkStatus\<close> as it runs in the mounted page. While the invocation waits for its next
  query the page renders the state set so far. After the status is set the source either
  waits for the audit query (status rejected) or goes on at once to a branch in which
  \<open>redirect_effect\<close> has nothing to emit, so the render stands before both.
\<close>

definition mounted_checkStatus ::
  "user option \<Rightarrow> backend \<Rightarrow> (nat \<Rightarrow> bool) \<Rightarrow> run \<Rightarrow> run" where
  "mounted_checkStatus usr db reach r =
     (case usr of
        None \<Rightarrow> r
      | Some u \<Rightarrow>
          (case after_request (transport (reach 0) (request_query u db)) r of
             (r1, False) \<Rightarrow> render (fst r) r1
           | (r1, True) \<Rightarrow>
               (case after_status (transport (reach 1) (status_query u db))
                       (render (fst r) r1) of
                  (r2, None) \<Rightarrow> r2
                | (r2, Some st) \<Rightarrow>
                    announce st
                      (if st = Some ''rejected''
                       then after_access (transport (reach 2) (access_query u db))
                              (render (fst r1) r2)
                       else render (fst r1) r2))))"

fun is_redirect :: "effect \<Rightarrow> bool" where
  "is_redirect (Navigate _) = True"
| "is_redirect _ = False"


section \<open>Messages page\<close>

record messages_state =
  adminUser :: "user option"
  messages :: "message list"
  isLoading :: bool
  isModalOpen :: bool
  newMessage :: string
  selectedFile :: "attachment option"

definition messages_init :: messages_state where
  "messages_init =
     \<lparr>adminUser = None, messages = [], isLoading = True, isModalOpen = False,
      newMessage = [], selectedFile = None\<rparr>"

type_synonym page = "messages_state \<times> effect list"

subsection \<open>Fetching the messages\<close>

definition involves :: "user \<Rightarrow> message \<Rightarrow> bool" where
  "involves u m = (sender_id m = uid u \<or> receiver_id m = uid u)"

definition messages_query :: "bool \<Rightarrow> user \<Rightarrow> backend \<Rightarrow> message list response" where
  "messages_query ascending u db =
     ok (order created_at ascending (filter (involves u) (messages_tbl db)))"

text \<open>What either copy of \<open>fetchMessages\<close> does when its response arrives.\<close>

definition after_fetch :: "message list response \<Rightarrow> page \<Rightarrow> page" where
  "after_fetch res p =
     (case error res of
        Some e \<Rightarrow> emit (ConsoleError ''Error fetching messages:'') p
      | None \<Rightarrow> (fst p\<lparr>messages := (case data res of None \<Rightarrow> [] | Some ms \<Rightarrow> ms)\<rparr>, snd p))"

text \<open>The copy local to the first effect asks for ascending order.\<close>

definition fetchMessages_effect :: "user option \<Rightarrow> bool \<Rightarrow> backend \<Rightarrow> page \<Rightarrow> page" where
  "fetchMessages_effect usr reached db p =
     (case usr of
        None \<Rightarrow> p
      | Some u \<Rightarrow> after_fetch (transport reached (messages_query True u db)) p)"

text \<open>The copy of the component body asks for descending order.\<close>

definition fetchMessages :: "user option \<Rightarrow> bool \<Rightarrow> backend \<Rightarrow> page \<Rightarrow> page" where
  "fetchMessages usr reached db p =
     (case usr of
        None \<Rightarrow> p
      | Some u \<Rightarrow> after_fetch (transport reached (messages_query False u db)) p)"

text \<open>Responses applied one after the other, in the order they complete.\<close>

fun completions :: "message list response list \<Rightarrow> page \<Rightarrow> page" where
  "completions [] p = p"
| "completions (r # rs) p = completions rs (after_fetch r p)"

fun payload :: "message list response \<Rightarrow> message list" where
  "payload r = (case data r of None \<Rightarrow> [] | Some ms \<Rightarrow> ms)"

subsection \<open>The subscription effects\<close>

datatype fault = TypeError string

record subscription =
  channel :: string
  row_filter :: string

text \<open>The template literal of the filter reads \<open>user.id\<close>; on \<open>null\<close> that read throws.\<close>

definition realtime_filter :: "user option \<Rightarrow> fault + string" where
  "realtime_filter usr =
     (case usr of
        None \<Rightarrow> Inl (TypeError ''Cannot read properties of null (reading id)'')
      | Some u \<Rightarrow> Inr (''sender_id=eq.'' @ uid u @ '' OR receiver_id=eq.'' @ uid u))"

text \<open>
  The first effect stands before the early return of the component, so it runs with the
  user the hook gave, \<open>null\<close> included.
\<close>

definition messages_effect ::
  "user option \<Rightarrow> bool \<Rightarrow> backend \<Rightarrow> page \<Rightarrow> fault + (page \<times> subscription)" where
  "messages_effect usr reached db p =
     (let p' = fetchMessages_effect usr reached db p in
      case realtime_filter usr of
        Inl f \<Rightarrow> Inl f
      | Inr flt \<Rightarrow> Inr (p', \<lparr>channel = ''messages'', row_filter = flt\<rparr>))"

text \<open>The later effect stands after the early return: it is reached with a user only.\<close>

definition refresh_effect :: "user \<Rightarrow> bool \<Rightarrow> backend \<Rightarrow> page \<Rightarrow> page \<times> subscription" where
  "refresh_effect u reached db p =
     (fetchMessages (Some u) reached db p,
      \<lparr>channel = ''messages'',
       row_filter = ''sender_id=eq.'' @ uid u @ '' OR receiver_id=eq.'' @ uid u\<rparr>)"

subsection \<open>Resolving the counterpart\<close>

definition qualifying :: "user_request \<Rightarrow> bool" where
  "qualifying r = (status r \<in> set [''pending'', ''approved''])"

definition qualifying_query :: "backend \<Rightarrow> string response" where
  "qualifying_query db =
     single (limit 1 (map user_id (filter qualifying (user_requests db))))"

definition getUserById :: "string \<Rightarrow> backend \<Rightarrow> user response" where
  "getUserById ident db =
     (case find (\<lambda>u. uid u = ident) (users_dir db) of
        None \<Rightarrow> failed ''User not found''
      | Some u \<Rightarrow> ok u)"

definition listUsers :: "backend \<Rightarrow> user list response" where
  "listUsers db = ok (users_dir db)"

definition load_caught :: "page \<Rightarrow> page" where
  "load_caught p = emit (ConsoleError ''Error loading users:'') p"

definition loadAdminUser :: "user option \<Rightarrow> backend \<Rightarrow> (nat \<Rightarrow> bool) \<Rightarrow> page \<Rightarrow> page" where
  "loadAdminUser usr db reach p =
     (case usr of
        None \<Rightarrow> p
      | Some u \<Rightarrow>
          (let p' =
             (if role u = Some ''admin''
              then
                (let users = transport (reach 0) (qualifying_query db) in
                 case error users of
                   Some e \<Rightarrow> load_caught p
                 | None \<Rightarrow>
                     (case data users of
                        None \<Rightarrow> load_caught p
                      | Some ident \<Rightarrow>
                          (let res = transport (reach 1) (getUserById ident db) in
                           case error res of
                             Some e \<Rightarrow> load_caught p
                           | None \<Rightarrow> (fst p\<lparr>adminUser := data res\<rparr>, snd p))))
              else
                (let adminUsers = transport (reach 0) (listUsers db) in
                 case error adminUsers of
                   Some e \<Rightarrow> load_caught p
                 | None \<Rightarrow>
                     (case data adminUsers of
                        None \<Rightarrow> load_caught p
                      | Some us \<Rightarrow>
                          (case find (\<lambda>a. role a = Some ''admin'') us of
                             None \<Rightarrow> p
                           | Some a \<Rightarrow> (fst p\<lparr>adminUser := Some a\<rparr>, snd p)))))
           in (fst p'\<lparr>isLoading := False\<rparr>, snd p')))"

text \<open>
  The resolver in the specification's words, for comparison: among the qualifying
  requests the most recently created one decides, and its user's directory entry is the
  counterpart.
\<close>

definition resolve_spec :: "backend \<Rightarrow> user option" where
  "resolve_spec db =
     (case order requested_at False (filter qualifying (user_requests db)) of
        [] \<Rightarrow> None
      | r # rs \<Rightarrow> find (\<lambda>u. uid u = user_id r) (users_dir db))"

subsection \<open>Sending a message\<close>

text \<open>
  What one send meets outside the page: whether each call reaches its service, the
  printed \<open>Math.random()\<close>, the clock, the address of the object store and the id the
  message store gives the new row.
\<close>

record send_env =
  upload_reached :: bool
  insert_reached :: bool
  fetch_reached :: bool
  random :: string
  clock :: nat
  storage_base :: string
  assigned_id :: string

fun split_on :: "char \<Rightarrow> string \<Rightarrow> string list" where
  "split_on c [] = [[]]"
| "split_on c (x # xs) =
     (if x = c then [] # split_on c xs
      else (case split_on c xs of [] \<Rightarrow> [[x]] | w # ws \<Rightarrow> (x # w) # ws))"

text \<open>
  \<open>String.prototype.trim\<close> removes white space and line terminators from both ends:
  TAB, LF, VT, FF, CR, SP, U+00A0, U+1680, U+2000 to U+200A, U+2028, U+2029, U+202F,
  U+205F, U+3000 and U+FEFF, here in their UTF-8 forms.
\<close>

definition white_space :: "string list" where
  "white_space =
     map (\<lambda>c. [c]) [CHR 0x09, CHR 0x0A, CHR 0x0B, CHR 0x0C, CHR 0x0D, CHR 0x20] @
     [[CHR 0xC2, CHR 0xA0], [CHR 0xE1, CHR 0x9A, CHR 0x80]] @
     map (\<lambda>c. [CHR 0xE2, CHR 0x80, c])
       [CHR 0x80, CHR 0x81, CHR 0x82, CHR 0x83, CHR 0x84, CHR 0x85, CHR 0x86, CHR 0x87,
        CHR 0x88, CHR 0x89, CHR 0x8A, CHR 0xA8, CHR 0xA9, CHR 0xAF] @
     [[CHR 0xE2, CHR 0x81, CHR 0x9F], [CHR 0xE3, CHR 0x80, CHR 0x80],
      [CHR 0xEF, CHR 0xBB, CHR 0xBF]]"

definition leading :: "string list \<Rightarrow> string \<Rightarrow> string option" where
  "leading ws s = find (\<lambda>w. w \<noteq> [] \<and> take (length w) s = w) ws"

function strip :: "string list \<Rightarrow> string \<Rightarrow> string" where
  "strip ws s = (case leading ws s of None \<Rightarrow> s | Some w \<Rightarrow> strip ws (drop (length w) s))"
  by pat_completeness auto
termination
proof (relation "measure (\<lambda>(ws, s). length s)")
  show "wf (measure (\<lambda>(ws, s). length s))" by simp
next
  fix ws :: "string list" and s w :: string
  assume "leading ws s = Some w"
  then have "w \<noteq> []" and "take (length w) s = w"
    by (auto simp: leading_def find_Some_iff)
  then have "s \<noteq> []" by auto
  with \<open>w \<noteq> []\<close> show "((ws, drop (length w) s), (ws, s)) \<in> measure (\<lambda>(ws, s). length s)"
    by simp
qed

declare strip.simps [simp del]

definition trim :: "string \<Rightarrow> string" where
  "trim s = rev (strip (map rev white_space) (rev (strip white_space s)))"

text \<open>
  \<open>encodeURI\<close>: letters, digits and the marks a URI may hold stay; every other byte
  becomes a percent sign and its two hexadecimal digits.
\<close>

definition uri_mark :: "char \<Rightarrow> bool" where
  "uri_mark c =
     (c \<in> set (''ABCDEFGHIJKLMNOPQRSTUVWXYZabcdefghijklmnopqrstuvwxyz0123456789'' @
               '';/?:@&=+$,#-_.!~*()'' @ [CHR 0x27]))"

definition hex_digit :: "nat \<Rightarrow> char" where
  "hex_digit n = ''0123456789ABCDEF'' ! (n mod 16)"

definition percent :: "char \<Rightarrow> string" where
  "percent c = [CHR ''%'', hex_digit (of_char c div 16), hex_digit (of_char c mod 16)]"

definition encodeURI :: "string \<Rightarrow> string" where
  "encodeURI s = concat (map (\<lambda>c. if uri_mark c then [c] else percent c) s)"

text \<open>The path the source builds for the picked file.\<close>

definition filePath :: "user \<Rightarrow> send_env \<Rightarrow> attachment \<Rightarrow> string" where
  "filePath u env f =
     (let fileExt = last (split_on CHR ''.'' (file_name f));
          fileName = random env @ ''.'' @ fileExt
      in uid u @ ''/'' @ fileName)"

text \<open>
  An upload that is answered puts the file into the bucket, where it stays; the bucket
  refuses a path it already holds, and a call that fails stores nothing.
\<close>

definition upload ::
  "send_env \<Rightarrow> string \<Rightarrow> attachment \<Rightarrow> backend \<Rightarrow> string response \<times> backend" where
  "upload env path f db =
     (if \<not> upload_reached env then (failed ''FetchError'', db)
      else if path \<in> fst ` set (message_images db) then (failed ''Duplicate'', db)
      else (ok path, db\<lparr>message_images := message_images db @ [(path, f)]\<rparr>))"

text \<open>\<open>storage_base\<close> is the public address of the bucket, up to its last slash.\<close>

definition getPublicUrl :: "send_env \<Rightarrow> string \<Rightarrow> string" where
  "getPublicUrl env path = encodeURI (storage_base env @ path)"

text \<open>What a send with an answered upload leaves in the bucket.\<close>

definition uploaded :: "user \<Rightarrow> send_env \<Rightarrow> attachment option \<Rightarrow> (string \<times> attachment) list" where
  "uploaded u env sel = (case sel of None \<Rightarrow> [] | Some f \<Rightarrow> [(filePath u env f, f)])"

definition attach ::
  "user \<Rightarrow> send_env \<Rightarrow> attachment option \<Rightarrow> backend \<Rightarrow> (string + string) \<times> backend" where
  "attach u env sel db =
     (case sel of
        None \<Rightarrow> (Inr [], db)
      | Some f \<Rightarrow>
          (case upload env (filePath u env f) f db of
             (res, db') \<Rightarrow>
               (case error res of
                  Some e \<Rightarrow> (Inl e, db')
                | None \<Rightarrow> (Inr (getPublicUrl env (filePath u env f)), db'))))"

text \<open>The store gives the inserted row its id; a call that fails stores nothing.\<close>

definition insert_message :: "send_env \<Rightarrow> message \<Rightarrow> backend \<Rightarrow> unit response \<times> backend" where
  "insert_message env row db =
     (if insert_reached env
      then (empty_ok, db\<lparr>messages_tbl := messages_tbl db @ [row\<lparr>message_id := assigned_id env\<rparr>]\<rparr>)
      else (failed ''FetchError'', db))"

definition send_caught :: "page \<Rightarrow> page" where
  "send_caught p = emit (ConsoleError ''Error sending message:'') p"

text \<open>\<open>adminId\<close> is the constant imported from the admin panel module.\<close>

definition handleSendMessage ::
  "string \<Rightarrow> user option \<Rightarrow> send_env \<Rightarrow> backend \<Rightarrow> page \<Rightarrow> page \<times> backend" where
  "handleSendMessage adminId usr env db p =
     (case usr of
        None \<Rightarrow> (p, db)
      | Some u \<Rightarrow>
          (case attach u env (selectedFile (fst p)) db of
             (Inl e, db1) \<Rightarrow> (send_caught p, db1)
           | (Inr fileUrl, db1) \<Rightarrow>
               (let row = \<lparr>message_id = [], sender_id = uid u, receiver_id = adminId,
                           content = trim (newMessage (fst p)),
                           image_url = or_null (Some fileUrl), created_at = clock env\<rparr>
                in case insert_message env row db1 of
                     (res, db') \<Rightarrow>
                       (case error res of
                          Some e \<Rightarrow> (send_caught p, db')
                        | None \<Rightarrow>
                            (fetchMessages usr (fetch_reached env) db'
                               (fst p\<lparr>newMessage := [], selectedFile := None,
                                      isModalOpen := False\<rparr>, snd p),
                             db')))))"

section \<open>Example data\<close>

definition alice :: user where
  "alice = \<lparr>uid = ''u1'', email = ''alice@example.org'', role = None, full_name = ''Alice''\<rparr>"

definition carol :: user where
  "carol = \<lparr>uid = ''u2'', email = ''carol@example.org'', role = None, full_name = ''Carol''\<rparr>"

definition boss :: user where
  "boss = \<lparr>uid = ''adm'', email = ''boss@example.org'', role = Some ''admin'', full_name = ''Boss''\<rparr>"

definition online :: "nat \<Rightarrow> bool" where
  "online i = True"

text \<open>A store whose only request is the one of \<open>alice\<close>, with the given status.\<close>

definition store_with :: "string \<Rightarrow> backend" where
  "store_with st =
     \<lparr>user_requests = [\<lparr>request_id = ''r1'', user_id = ''u1'', status = st, requested_at = 10\<rparr>],
      admin_access = [], messages_tbl = [], users_dir = [], message_images = []\<rparr>"

definition audited :: backend where
  "audited = (store_with ''rejected'')\<lparr>admin_access :=
      [\<lparr>accessed_user_id = ''u1'', accessed_at = 5, access_reason = Some ''duplicate account''\<rparr>,
       \<lparr>accessed_user_id = ''u2'', accessed_at = 9, access_reason = Some ''spam''\<rparr>,
       \<lparr>accessed_user_id = ''u1'', accessed_at = 7, access_reason = Some ''incomplete profile''\<rparr>]\<rparr>"

text \<open>Two applicants: the older request is held first, the newer one second.\<close>

definition applicants :: backend where
  "applicants =
     \<lparr>user_requests =
        [\<lparr>request_id = ''r1'', user_id = ''u1'', status = ''pending'', requested_at = 10\<rparr>,
         \<lparr>request_id = ''r2'', user_id = ''u2'', status = ''approved'', requested_at = 20\<rparr>],
      admin_access = [], messages_tbl = [], users_dir = [boss, alice, carol],
      message_images = []\<rparr>"

definition msg :: "string \<Rightarrow> string \<Rightarrow> string \<Rightarrow> nat \<Rightarrow> message" where
  "msg i s r t = \<lparr>message_id = i, sender_id = s, receiver_id = r, content = ''hi'',
                  image_url = None, created_at = t\<rparr>"

definition inbox :: "message list \<Rightarrow> backend" where
  "inbox ms =
     \<lparr>user_requests = [], admin_access = [], messages_tbl = ms, users_dir = [],
      message_images = []\<rparr>"

definition blank :: page where
  "blank = (messages_init, [])"

definition draft :: "string \<Rightarrow> page" where
  "draft s = (messages_init\<lparr>newMessage := s, isModalOpen := True\<rparr>, [])"

definition draft_with :: "string \<Rightarrow> attachment \<Rightarrow> page" where
  "draft_with s f =
     (messages_init\<lparr>newMessage := s, isModalOpen := True, selectedFile := Some f\<rparr>, [])"

definition send_with :: "bool \<Rightarrow> send_env" where
  "send_with ins =
     \<lparr>upload_reached = True, insert_reached = ins, fetch_reached = True, random = ''0.42'',
      clock = 100, storage_base = ''https://store/'', assigned_id = ''m9''\<rparr>"

section \<open>The duplicate-toast guard: cooldown\<close>

lemma alerts_run_timers: "alerts k (run_timers t s) = alerts k s"
  by (simp add: alerts_def run_timers_def)

lemma guarded_run_timers:
  assumes "guarded s"
  shows "guarded (run_timers t s)"
proof -
  have inj: "inj_on snd (set (timers s))" and dom: "shownToasts s = snd ` set (timers s)"
    using assms by (simp_all add: guarded_def distinct_map)
  have "snd ` set (timers s) - snd ` {x \<in> set (timers s). due t x}
          = snd ` {x \<in> set (timers s). \<not> due t x}"
    using inj by (auto dest: inj_onD)
  moreover have "distinct (map snd (filter (\<lambda>x. \<not> due t x) (timers s)))"
    using assms by (simp add: guarded_def distinct_map_filter)
  ultimately show ?thesis
    by (simp add: guarded_def run_timers_def dom)
qed

lemma guarded_showUniqueToast: "guarded s \<Longrightarrow> guarded (showUniqueToast now m ty i s)"
  unfolding guarded_def showUniqueToast_def Let_def by auto

lemma guarded_notify_at: "guarded s \<Longrightarrow> guarded (notify_at now m ty i s)"
  by (simp add: notify_at_def guarded_run_timers guarded_showUniqueToast)

lemma guarded_init: "guarded toaster_init"
  by (simp add: guarded_def toaster_init_def)

lemma notify_fresh:
  assumes "toast_key m i \<notin> shownToasts (run_timers now s)"
  shows "alerts (toast_key m i) (notify_at now m ty i s) = Suc (alerts (toast_key m i) s)"
    and "(now + 5000, toast_key m i) \<in> set (timers (notify_at now m ty i s))"
  using assms
  by (simp_all add: notify_at_def showUniqueToast_def Let_def alerts_def run_timers_def)

lemma notify_suppressed:
  "toast_key m i \<in> shownToasts (run_timers now s) \<Longrightarrow> notify_at now m ty i s = run_timers now s"
  by (simp add: notify_at_def showUniqueToast_def Let_def)

lemma pending_kept:
  assumes "guarded s" "(d, k) \<in> set (timers s)" "t < d"
  shows "k \<in> shownToasts (run_timers t s)" "(d, k) \<in> set (timers (run_timers t s))"
proof -
  show "(d, k) \<in> set (timers (run_timers t s))"
    using assms by (simp add: run_timers_def due_def)
  then show "k \<in> shownToasts (run_timers t s)"
    using guarded_run_timers[OF assms(1), of t] by (force simp: guarded_def)
qed

lemma expired_gone:
  assumes "(d, k) \<in> set (timers s)" "d \<le> t"
  shows "k \<notin> shownToasts (run_timers t s)"
  using assms by (force simp: run_timers_def due_def)

text \<open>
  Claim C7. A key that is not in its cooldown at time \<open>t0\<close> is notified at \<open>t0\<close>, again at
  \<open>t1\<close> inside the 5000 ms window and once more at \<open>t2\<close> after the window: the first two
  calls together add exactly one alert for the key, the third adds the second alert.
\<close>

theorem showUniqueToast_cooldown:
  assumes g: "guarded s"
    and fresh: "toast_key m i \<notin> shownToasts (run_timers t0 s)"
    and w: "t0 \<le> t1" "t1 < t0 + 5000" and e: "t0 + 5000 \<le> t2"
  shows "alerts (toast_key m i) (notify_at t1 m ty i (notify_at t0 m ty i s))
           = alerts (toast_key m i) s + 1
       \<and> alerts (toast_key m i)
           (notify_at t2 m ty i (notify_at t1 m ty i (notify_at t0 m ty i s)))
           = alerts (toast_key m i) s + 2"
proof -
  define k where "k = toast_key m i"
  define s1 where "s1 = notify_at t0 m ty i s"
  define s2 where "s2 = notify_at t1 m ty i s1"
  have g1: "guarded s1"
    unfolding s1_def by (rule guarded_notify_at[OF g])
  have a1: "alerts k s1 = Suc (alerts k s)"
    unfolding s1_def k_def by (rule notify_fresh(1)[OF fresh])
  have p1: "(t0 + 5000, k) \<in> set (timers s1)"
    unfolding s1_def k_def by (rule notify_fresh(2)[OF fresh])
  have in2: "k \<in> shownToasts (run_timers t1 s1)"
    and p2: "(t0 + 5000, k) \<in> set (timers (run_timers t1 s1))"
    using pending_kept[OF g1 p1 w(2)] by simp_all
  have s2: "s2 = run_timers t1 s1"
    unfolding s2_def using in2 notify_suppressed[of m i t1 s1 ty] by (simp add: k_def)
  have a2: "alerts k s2 = Suc (alerts k s)"
    by (simp add: s2 alerts_run_timers a1)
  have out3: "toast_key m i \<notin> shownToasts (run_timers t2 s2)"
    using expired_gone[OF _ e, of k s2] p2 s2 by (simp add: k_def)
  have a3: "alerts k (notify_at t2 m ty i s2) = Suc (Suc (alerts k s))"
    using notify_fresh(1)[OF out3, of ty] a2 by (simp add: k_def)
  show ?thesis using a2 a3 by (simp add: k_def s1_def s2_def)
qed

theorem showUniqueToast_cooldown_witness:
  "alerts ''k'' (notify_at 3000 ''X'' error_toast (Some ''k'')
      (notify_at 1000 ''X'' error_toast (Some ''k'') toaster_init)) = 1
   \<and> alerts ''k'' (notify_at 6000 ''X'' error_toast (Some ''k'')
      (notify_at 3000 ''X'' error_toast (Some ''k'')
        (notify_at 1000 ''X'' error_toast (Some ''k'') toaster_init))) = 2"
proof -
  have k: "toast_key ''X'' (Some ''k'') = ''k''" by (simp add: toast_key_def)
  have f: "toast_key ''X'' (Some ''k'') \<notin> shownToasts (run_timers 1000 toaster_init)"
    by (simp add: run_timers_def toaster_init_def)
  have z: "alerts ''k'' toaster_init = 0" by (simp add: alerts_def toaster_init_def)
  show ?thesis
    using showUniqueToast_cooldown[OF guarded_init f, of 3000 6000 error_toast]
    by (simp add: k z)
qed


section \<open>The status check\<close>

lemmas check_defs = checkStatus_def after_request_def after_status_def after_access_def
  announce_def caught_def emit_def transport_def request_query_def status_query_def
  access_query_def audit_trail_def ok_def failed_def empty_ok_def limit_def order_def

lemma single_ok_singleton: "single xs = ok v \<Longrightarrow> xs = [v]"
  by (cases xs rule: single.cases) (simp_all add: ok_def failed_def)

lemma status_ok_request_ok:
  assumes "status_query u db = ok s"
  shows "error (request_query u db) = None \<and> data (request_query u db) \<noteq> None"
proof -
  have "map status (filter (\<lambda>r. user_id r = uid u) (user_requests db)) = [s]"
    using assms single_ok_singleton by (simp add: status_query_def)
  then obtain r where "filter (\<lambda>r. user_id r = uid u) (user_requests db) = [r]"
    by (auto simp: map_eq_Cons_conv)
  then show ?thesis by (simp add: request_query_def ok_def)
qed

subsection \<open>Approval\<close>

text \<open>
  Whatever the page held before, an invocation that reads \<open>approved\<close> calls the toast
  library once more, and a tick leaves the interval as it found it.
\<close>

lemma checkStatus_approved:
  assumes "reach 0" "reach 1" "status_query u db = ok ''approved''"
  shows "checkStatus (Some u) db reach (st, out)
           = (st\<lparr>hasRequest := True, applicationStatus := Some ''approved''\<rparr>,
              out @ [Toast success ''Your application has been approved!'' None])"
  using assms status_ok_request_ok[OF assms(3)]
  by (simp add: checkStatus_def after_request_def after_status_def transport_def ok_def
      announce_def emit_def)

lemma polling_tick: "polling (tick usr w t) = polling t"
  by (simp add: tick_def reconcile_def Let_def)

lemma polling_ticks: "polling (ticks usr ws t) = polling t"
  by (induction ws arbitrary: t) (simp_all add: polling_tick)

text \<open>
  Claim C1 asks for exactly one success notification and no further tick once
  \<open>approved\<close> has been observed. The run below reads \<open>pending\<close> on activation and
  \<open>approved\<close> on the next two ticks: the success toast is shown twice, without a
  key, and the interval is still live.
\<close>

theorem approved_toast_repeats:
  "filter is_success (emitted (ticks (Some alice)
       [(store_with ''approved'', online), (store_with ''approved'', online)]
       (activate (Some alice) (store_with ''pending'', online) tracker_init)))
     = [Toast success ''Your application has been approved!'' None,
        Toast success ''Your application has been approved!'' None]
   \<and> polling (ticks (Some alice)
       [(store_with ''approved'', online), (store_with ''approved'', online)]
       (activate (Some alice) (store_with ''pending'', online) tracker_init))"
  by (simp add: activate_def tick_def reconcile_def check_defs alice_def store_with_def
      online_def tracker_init_def dashboard_init_def Let_def)

subsection \<open>Rejection\<close>

lemma sorted_last_max:
  "sorted (map f xs) \<Longrightarrow> x \<in> set xs \<Longrightarrow> f x \<le> f (last xs)"
  by (induction xs) auto

lemma latest_first:
  assumes "xs \<noteq> []"
  shows "take 1 (rev (sort_key f xs)) = [last (sort_key f xs)]"
    and "last (sort_key f xs) \<in> set xs"
    and "\<forall>b\<in>set xs. f b \<le> f (last (sort_key f xs))"
proof -
  have ne: "sort_key f xs \<noteq> []"
    using assms by (metis length_sort length_0_conv)
  then show "take 1 (rev (sort_key f xs)) = [last (sort_key f xs)]"
    by (cases "sort_key f xs" rule: rev_cases) simp_all
  show "last (sort_key f xs) \<in> set xs"
    using last_in_set[OF ne] by simp
  show "\<forall>b\<in>set xs. f b \<le> f (last (sort_key f xs))"
    using sorted_last_max[of f "sort_key f xs"] by simp
qed

lemma access_query_latest:
  assumes "audit_trail u db \<noteq> []"
  shows "access_query u db
           = ok (access_reason (last (sort_key accessed_at (audit_trail u db))))"
  using latest_first(1)[OF assms, of accessed_at]
  by (simp add: access_query_def limit_def order_def take_map)

lemma access_query_none:
  assumes "audit_trail u db = []"
  shows "data (access_query u db) = None"
  using assms by (simp add: access_query_def limit_def order_def failed_def)

lemma fst_render: "fst (render before r) = fst r"
  by (simp add: render_def)

text \<open>The renders add emissions only: the page state is the one \<open>checkStatus\<close> leaves.\<close>

lemma mounted_checkStatus_state:
  "fst (mounted_checkStatus usr db reach r) = fst (checkStatus usr db reach r)"
  by (cases usr)
     (auto simp: mounted_checkStatus_def checkStatus_def after_request_def after_status_def
        after_access_def announce_def caught_def emit_def render_def
        split: option.splits)

lemma mounted_rejected_run:
  assumes "reach 0" "reach 1" "reach 2" and rej: "status_query u db = ok ''rejected''"
  shows "mounted_checkStatus (Some u) db reach (st, out)
           = announce (Some ''rejected'')
               (after_access (access_query u db)
                  (st\<lparr>hasRequest := True, applicationStatus := Some ''rejected''\<rparr>,
                   out @ (if hasRequest st \<and> applicationStatus st = Some ''rejected''
                          then [] else [Navigate ''/''])))"
  using assms(1-3) rej status_ok_request_ok[OF rej]
  by (auto simp: mounted_checkStatus_def after_request_def after_status_def transport_def
      ok_def render_def redirect_effect_def)

text \<open>
  Claim C6 as stated asks for exactly one navigation for a reconciliation that reads
  \<open>rejected\<close>. The page held a pending request; the read sets the status, the render
  that follows runs the redirect effect, and the invocation navigates again after its
  toast: two navigations.
\<close>

theorem rejected_navigates_twice:
  "snd (mounted_checkStatus (Some alice) audited online
          (dashboard_init\<lparr>hasRequest := True, applicationStatus := Some ''pending''\<rparr>, []))
     = [Navigate ''/'', Toast error_toast ''Your application has been rejected.'' None,
        Navigate ''/'']
   \<and> filter is_redirect (snd (mounted_checkStatus (Some alice) audited online
          (dashboard_init\<lparr>hasRequest := True, applicationStatus := Some ''pending''\<rparr>, [])))
     = [Navigate ''/'', Navigate ''/'']"
  by (simp add: mounted_checkStatus_def render_def redirect_effect_def check_defs alice_def
      audited_def store_with_def online_def dashboard_init_def)

text \<open>
  Claim C6, amended. For an invocation in the mounted page whose three queries are
  answered and that reads \<open>rejected\<close>: the failure toast is shown once by this
  invocation, whatever the page held before (so a later invocation that reads
  \<open>rejected\<close> shows it again); the invocation navigates once after the toast, and the
  redirect effect has navigated once before it unless the page already held a rejected
  request; the rejection reason is set from an audit record of the user that no other
  record of the user is later than (to null when the user has no record, or the record
  no reason).
\<close>

theorem rejected_on_mounted_page:
  assumes reach: "reach 0" "reach 1" "reach 2"
    and rej: "status_query u db = ok ''rejected''"
  shows "snd (mounted_checkStatus (Some u) db reach (st, out))
           = out @ (if hasRequest st \<and> applicationStatus st = Some ''rejected''
                    then [] else [Navigate ''/''])
                 @ [Toast error_toast ''Your application has been rejected.'' None,
                    Navigate ''/'']
       \<and> hasRequest (fst (mounted_checkStatus (Some u) db reach (st, out)))
       \<and> applicationStatus (fst (mounted_checkStatus (Some u) db reach (st, out)))
           = Some ''rejected''
       \<and> (if audit_trail u db = []
          then rejectionReason (fst (mounted_checkStatus (Some u) db reach (st, out))) = None
          else \<exists>a\<in>set (audit_trail u db).
                 (\<forall>b\<in>set (audit_trail u db). accessed_at b \<le> accessed_at a)
                 \<and> rejectionReason (fst (mounted_checkStatus (Some u) db reach (st, out)))
                     = or_null (access_reason a))"
proof -
  let ?res = "mounted_checkStatus (Some u) db reach (st, out)"
  let ?ms = "audit_trail u db"
  note run = mounted_rejected_run[OF reach rej, of st out]
  have out: "snd ?res = out @ (if hasRequest st \<and> applicationStatus st = Some ''rejected''
                               then [] else [Navigate ''/''])
                            @ [Toast error_toast ''Your application has been rejected.'' None,
                               Navigate ''/'']"
    by (simp add: run announce_def emit_def after_access_def)
  have stat: "hasRequest (fst ?res)" "applicationStatus (fst ?res) = Some ''rejected''"
    by (simp_all add: run announce_def emit_def after_access_def)
  have reason: "rejectionReason (fst ?res)
      = or_null (case data (access_query u db) of None \<Rightarrow> None | Some a \<Rightarrow> a)"
    by (simp add: run announce_def emit_def after_access_def)
  show ?thesis
  proof (cases "?ms = []")
    case True
    then show ?thesis
      using out stat reason access_query_none[of u db] by simp
  next
    case False
    have "last (sort_key accessed_at ?ms) \<in> set ?ms"
      and "\<forall>b\<in>set ?ms. accessed_at b \<le> accessed_at (last (sort_key accessed_at ?ms))"
      using latest_first(2,3)[OF False, of accessed_at] by simp_all
    moreover have "rejectionReason (fst ?res)
        = or_null (access_reason (last (sort_key accessed_at ?ms)))"
      using reason access_query_latest[OF False] by (simp add: ok_def)
    ultimately have "\<exists>a\<in>set ?ms. (\<forall>b\<in>set ?ms. accessed_at b \<le> accessed_at a)
        \<and> rejectionReason (fst ?res) = or_null (access_reason a)"
      by blast
    then show ?thesis
      using out stat False by simp
  qed
qed

theorem rejected_on_mounted_page_witness:
  "status_query alice audited = ok ''rejected''
   \<and> snd (mounted_checkStatus (Some alice) audited online (dashboard_init, []))
       = [Navigate ''/'', Toast error_toast ''Your application has been rejected.'' None,
          Navigate ''/'']
   \<and> snd (mounted_checkStatus (Some alice) audited online
        (dashboard_init\<lparr>hasRequest := True, applicationStatus := Some ''rejected''\<rparr>, []))
       = [Toast error_toast ''Your application has been rejected.'' None, Navigate ''/'']
   \<and> rejectionReason (fst (mounted_checkStatus (Some alice) audited online (dashboard_init, [])))
       = Some ''incomplete profile''"
proof -
  have rej: "status_query alice audited = ok ''rejected''"
    by (simp add: status_query_def alice_def audited_def store_with_def ok_def)
  have on: "online 0" "online 1" "online 2"
    by (simp_all add: online_def)
  have "rejectionReason (fst (mounted_checkStatus (Some alice) audited online (dashboard_init, [])))
          = Some ''incomplete profile''"
    by (simp add: mounted_checkStatus_def render_def redirect_effect_def check_defs alice_def
        audited_def store_with_def online_def dashboard_init_def)
  then show ?thesis
    using rejected_on_mounted_page[OF on rej, of dashboard_init "[]"]
      rejected_on_mounted_page[OF on rej,
        of "dashboard_init\<lparr>hasRequest := True, applicationStatus := Some ''rejected''\<rparr>" "[]"]
      rej
    by (simp add: dashboard_init_def)
qed

subsection \<open>Failing queries\<close>

text \<open>
  Claim C8 as stated asks that an invocation with a failing query leaves the whole page
  state as it was. Here the first query is answered and the second is not: the page
  started with \<open>hasRequest\<close> false and ends with it true.
\<close>

theorem failure_not_atomic:
  "error (transport False (status_query alice (store_with ''pending''))) \<noteq> None
   \<and> fst (checkStatus (Some alice) (store_with ''pending'') (\<lambda>i. i = 0) (dashboard_init, []))
        = dashboard_init\<lparr>hasRequest := True\<rparr>
   \<and> dashboard_init\<lparr>hasRequest := True\<rparr> \<noteq> dashboard_init"
  by (simp add: check_defs alice_def store_with_def dashboard_init_def)

text \<open>
  Claim C8, amended. A failing first query is logged and leaves the page state and the
  user-visible effects as they were. A failing second query, after a first one that
  found the request, is logged as well; it leaves the status and the reason as they
  were, and \<open>hasRequest\<close> is true by then. Neither case shows a toast or navigates.
\<close>

theorem failure_logged_and_swallowed:
  "(error (transport (reach 0) (request_query u db)) \<noteq> None \<longrightarrow>
      checkStatus (Some u) db reach (st, out)
        = (st, out @ [ConsoleError ''Error checking application status:'']))
   \<and> (error (transport (reach 0) (request_query u db)) = None
        \<and> data (transport (reach 0) (request_query u db)) \<noteq> None
        \<and> error (transport (reach 1) (status_query u db)) \<noteq> None \<longrightarrow>
      checkStatus (Some u) db reach (st, out)
        = (st\<lparr>hasRequest := True\<rparr>,
           out @ [ConsoleError ''Error checking application status:'']))"
  by (auto simp: checkStatus_def after_request_def after_status_def caught_def emit_def)

theorem failure_logged_and_swallowed_witness:
  "checkStatus (Some alice) (store_with ''approved'') (\<lambda>i. False) (dashboard_init, [])
     = (dashboard_init, [ConsoleError ''Error checking application status:''])
   \<and> checkStatus (Some alice) (store_with ''approved'') (\<lambda>i. i = 0) (dashboard_init, [])
     = (dashboard_init\<lparr>hasRequest := True\<rparr>,
        [ConsoleError ''Error checking application status:''])"
proof -
  have a: "error (transport False (request_query alice (store_with ''approved''))) \<noteq> None"
    by (simp add: transport_def failed_def)
  have b: "error (transport True (request_query alice (store_with ''approved''))) = None
      \<and> data (transport True (request_query alice (store_with ''approved''))) \<noteq> None
      \<and> error (transport False (status_query alice (store_with ''approved''))) \<noteq> None"
    by (simp add: transport_def failed_def request_query_def ok_def alice_def store_with_def)
  show ?thesis
    using a b
      failure_logged_and_swallowed[of "\<lambda>i. False" alice "store_with ''approved''" dashboard_init "[]"]
      failure_logged_and_swallowed[of "\<lambda>i. i = 0" alice "store_with ''approved''" dashboard_init "[]"]
    by simp
qed


section \<open>The message list\<close>

lemmas fetch_defs = fetchMessages_def fetchMessages_effect_def after_fetch_def
  messages_query_def transport_def ok_def failed_def order_def involves_def emit_def

subsection \<open>Display order\<close>

text \<open>
  Claim C2 as stated asks for ascending \<open>createdAt\<close> with ties broken by \<open>id\<close> after any
  refresh. The fetch of the component body returns the later message first; the fetch of
  the first effect, given two messages of one timestamp, shows id \<open>b\<close> before id \<open>a\<close>.
\<close>

theorem display_order_counterexample:
  "messages (fst (fetchMessages (Some alice) True
       (inbox [msg ''m1'' ''u1'' ''adm'' 1, msg ''m2'' ''adm'' ''u1'' 2]) blank))
     = [msg ''m2'' ''adm'' ''u1'' 2, msg ''m1'' ''u1'' ''adm'' 1]
   \<and> created_at (msg ''m1'' ''u1'' ''adm'' 1) < created_at (msg ''m2'' ''adm'' ''u1'' 2)
   \<and> messages (fst (fetchMessages_effect (Some alice) True
       (inbox [msg ''b'' ''u1'' ''adm'' 5, msg ''a'' ''adm'' ''u1'' 5]) blank))
     = [msg ''b'' ''u1'' ''adm'' 5, msg ''a'' ''adm'' ''u1'' 5]
   \<and> created_at (msg ''a'' ''adm'' ''u1'' 5) = created_at (msg ''b'' ''u1'' ''adm'' 5)
   \<and> message_id (msg ''a'' ''adm'' ''u1'' 5) < message_id (msg ''b'' ''u1'' ''adm'' 5)"
  by (simp add: fetch_defs inbox_def msg_def blank_def messages_init_def alice_def)

text \<open>
  Claim C2, amended. After an answered fetch of the first effect the list holds the
  messages the user sent or received, in ascending \<open>createdAt\<close>, in whatever order the
  store holds them: a message with a strictly smaller \<open>createdAt\<close> stands before one with
  a larger. The query names no second key, so nothing is said about equal timestamps.
\<close>

theorem ascending_fetch_sorted:
  assumes "ms = messages (fst (fetchMessages_effect (Some u) True db p))"
  shows "set ms = {m \<in> set (messages_tbl db). involves u m}
       \<and> sorted (map created_at ms)
       \<and> (\<forall>i j. i < length ms \<and> j < length ms \<and> created_at (ms ! i) < created_at (ms ! j)
              \<longrightarrow> i < j)"
proof -
  have ms: "ms = sort_key created_at (filter (involves u) (messages_tbl db))"
    using assms
    by (simp add: fetchMessages_effect_def after_fetch_def messages_query_def transport_def
        ok_def order_def)
  have s: "sorted (map created_at ms)"
    by (simp add: ms)
  have "i < j"
    if "i < length ms" "j < length ms" "created_at (ms ! i) < created_at (ms ! j)" for i j
  proof (rule ccontr)
    assume "\<not> i < j"
    then have "j \<le> i" by simp
    then have "map created_at ms ! j \<le> map created_at ms ! i"
      using s that(1) by (simp add: sorted_iff_nth_mono del: nth_map)
    then show False
      using that by simp
  qed
  then show ?thesis
    using s by (auto simp: ms)
qed

theorem ascending_fetch_sorted_witness:
  "messages (fst (fetchMessages_effect (Some alice) True
       (inbox [msg ''m2'' ''adm'' ''u1'' 2, msg ''m1'' ''u1'' ''adm'' 1]) blank))
     = [msg ''m1'' ''u1'' ''adm'' 1, msg ''m2'' ''adm'' ''u1'' 2]
   \<and> sorted (map created_at (messages (fst (fetchMessages_effect (Some alice) True
       (inbox [msg ''m2'' ''adm'' ''u1'' 2, msg ''m1'' ''u1'' ''adm'' 1]) blank))))"
proof -
  have "messages (fst (fetchMessages_effect (Some alice) True
       (inbox [msg ''m2'' ''adm'' ''u1'' 2, msg ''m1'' ''u1'' ''adm'' 1]) blank))
     = [msg ''m1'' ''u1'' ''adm'' 1, msg ''m2'' ''adm'' ''u1'' 2]"
    by (simp add: fetch_defs inbox_def msg_def blank_def messages_init_def alice_def)
  then show ?thesis
    using ascending_fetch_sorted[OF refl, of alice
        "inbox [msg ''m2'' ''adm'' ''u1'' 2, msg ''m1'' ''u1'' ''adm'' 1]" blank]
    by simp
qed

subsection \<open>Responses that complete out of order\<close>

lemma completions_last:
  "messages (fst (completions rs p))
     = (case filter (\<lambda>r. error r = None) rs of
          [] \<Rightarrow> messages (fst p)
        | r # rs' \<Rightarrow> payload (last (r # rs')))"
proof (induction rs arbitrary: p)
  case Nil
  then show ?case by simp
next
  case (Cons r rs)
  show ?case
  proof (cases "error r")
    case None
    then have "messages (fst (after_fetch r p)) = payload r"
      by (simp add: after_fetch_def)
    with None show ?thesis
      by (simp add: Cons.IH split: list.split)
  next
    case (Some e)
    then have "messages (fst (after_fetch r p)) = messages (fst p)"
      by (simp add: after_fetch_def emit_def)
    with Some show ?thesis
      by (simp add: Cons.IH split: list.split)
  qed
qed

text \<open>
  Claim C4 as stated asks that a stale response is dropped once a newer one has been
  applied. Two refreshes: the first is issued while the store holds \<open>m1\<close>, the second
  while it holds \<open>m1\<close> and \<open>m2\<close>. The second completes first and shows both; the first
  completes after it and the list is back to \<open>m1\<close> alone. Likewise a status response
  read at \<open>pending\<close> that arrives after one read at \<open>approved\<close> sets the page back
  to \<open>pending\<close>.
\<close>

theorem stale_response_overwrites:
  "messages (fst (completions
       [messages_query False alice
          (inbox [msg ''m1'' ''u1'' ''adm'' 1, msg ''m2'' ''adm'' ''u1'' 2])] blank))
     = [msg ''m2'' ''adm'' ''u1'' 2, msg ''m1'' ''u1'' ''adm'' 1]
   \<and> messages (fst (completions
       [messages_query False alice
          (inbox [msg ''m1'' ''u1'' ''adm'' 1, msg ''m2'' ''adm'' ''u1'' 2]),
        messages_query False alice (inbox [msg ''m1'' ''u1'' ''adm'' 1])] blank))
     = [msg ''m1'' ''u1'' ''adm'' 1]
   \<and> applicationStatus (fst (fst
        (after_status (status_query alice (store_with ''pending''))
          (fst (after_status (status_query alice (store_with ''approved''))
             (dashboard_init, []))))))
     = Some ''pending''"
  by (simp add: fetch_defs inbox_def msg_def blank_def messages_init_def alice_def
      after_status_def status_query_def store_with_def dashboard_init_def)

text \<open>
  Claim C4, amended. No sequence number is kept or compared: every response is applied
  when it completes. After any sequence of completed refreshes the list is the payload
  of the last one that completed without error (the list from before, if none did), and
  a status response without error sets the status it carries, whatever was applied
  before.
\<close>

theorem last_completion_wins:
  "messages (fst (completions rs p))
     = (case filter (\<lambda>r. error r = None) rs of
          [] \<Rightarrow> messages (fst p)
        | r # rs' \<Rightarrow> payload (last (r # rs')))
   \<and> applicationStatus (fst (fst (after_status res q)))
     = (if error res = None then or_null (data res) else applicationStatus (fst q))"
  using completions_last[of rs p]
  by (auto simp: after_status_def caught_def emit_def)

theorem last_completion_wins_witness:
  "messages (fst (completions
       [ok [msg ''m2'' ''adm'' ''u1'' 2, msg ''m1'' ''u1'' ''adm'' 1], failed ''FetchError'',
        ok [msg ''m1'' ''u1'' ''adm'' 1]] blank))
     = [msg ''m1'' ''u1'' ''adm'' 1]
   \<and> applicationStatus (fst (fst (after_status (ok ''pending'') (dashboard_init, []))))
     = Some ''pending''"
  using last_completion_wins[of
      "[ok [msg ''m2'' ''adm'' ''u1'' 2, msg ''m1'' ''u1'' ''adm'' 1], failed ''FetchError'',
        ok [msg ''m1'' ''u1'' ''adm'' 1]]" blank "ok ''pending''" "(dashboard_init, [])"]
  by (simp add: ok_def failed_def)


section \<open>Sending\<close>

lemma attach_failure:
  "fst (attach u env sel db) = Inl e \<Longrightarrow> snd (attach u env sel db) = db"
  by (auto simp: attach_def upload_def ok_def failed_def split: option.splits if_splits)

lemma attach_success:
  "fst (attach u env sel db) = Inr url \<Longrightarrow>
     snd (attach u env sel db) = db\<lparr>message_images := message_images db @ uploaded u env sel\<rparr>"
  by (auto simp: attach_def upload_def uploaded_def ok_def failed_def
      split: option.splits if_splits)

lemma handleSendMessage_attach_failure:
  assumes "fst (attach u env (selectedFile (fst p)) db) = Inl e"
  shows "handleSendMessage adminId (Some u) env db p
           = ((fst p, snd p @ [ConsoleError ''Error sending message:'']), db)"
  using assms attach_failure[OF assms]
  by (cases "attach u env (selectedFile (fst p)) db")
     (simp add: handleSendMessage_def send_caught_def emit_def)

lemma handleSendMessage_insert_failure:
  assumes "fst (attach u env (selectedFile (fst p)) db) = Inr url" "\<not> insert_reached env"
  shows "handleSendMessage adminId (Some u) env db p
           = ((fst p, snd p @ [ConsoleError ''Error sending message:'']),
              db\<lparr>message_images := message_images db @ uploaded u env (selectedFile (fst p))\<rparr>)"
  using assms attach_success[OF assms(1)]
  by (cases "attach u env (selectedFile (fst p)) db")
     (simp add: handleSendMessage_def insert_message_def send_caught_def emit_def failed_def)

lemma handleSendMessage_success:
  assumes "fst (attach u env (selectedFile (fst p)) db) = Inr url" "insert_reached env"
  shows "handleSendMessage adminId (Some u) env db p
           = (fetchMessages (Some u) (fetch_reached env)
                (db\<lparr>message_images := message_images db @ uploaded u env (selectedFile (fst p)),
                    messages_tbl := messages_tbl db @
                   [\<lparr>message_id = assigned_id env, sender_id = uid u, receiver_id = adminId,
                     content = trim (newMessage (fst p)), image_url = or_null (Some url),
                     created_at = clock env\<rparr>]\<rparr>)
                (fst p\<lparr>newMessage := [], selectedFile := None, isModalOpen := False\<rparr>, snd p),
              db\<lparr>message_images := message_images db @ uploaded u env (selectedFile (fst p)),
                 messages_tbl := messages_tbl db @
                   [\<lparr>message_id = assigned_id env, sender_id = uid u, receiver_id = adminId,
                     content = trim (newMessage (fst p)), image_url = or_null (Some url),
                     created_at = clock env\<rparr>]\<rparr>)"
  using assms attach_success[OF assms(1)]
  by (cases "attach u env (selectedFile (fst p)) db")
     (simp add: handleSendMessage_def insert_message_def empty_ok_def)

lemma fetchMessages_answered:
  "fetchMessages (Some u) reached db p
     = (if reached
        then (fst p\<lparr>messages :=
                rev (sort_key created_at (filter (involves u) (messages_tbl db)))\<rparr>, snd p)
        else (fst p, snd p @ [ConsoleError ''Error fetching messages:'']))"
  by (simp add: fetch_defs)

text \<open>
  Claim C3 as stated asks for an optimistic entry that stays in the list, marked failed,
  when the insert fails. Here the insert of the draft \<open>hello\<close> fails: the error is
  logged, the page is as before and its list is still empty.
\<close>

theorem no_optimistic_entry:
  "handleSendMessage ''adm'' (Some alice) (send_with False) (inbox []) (draft ''hello'')
     = ((fst (draft ''hello''), [ConsoleError ''Error sending message:'']), inbox [])
   \<and> messages (fst (draft ''hello'')) = []
   \<and> newMessage (fst (draft ''hello'')) = ''hello''"
  by (simp add: handleSendMessage_def attach_def insert_message_def send_caught_def emit_def
      failed_def draft_def send_with_def inbox_def alice_def messages_init_def)

text \<open>
  Claim C3, amended. A send adds nothing to the list before the insert returns, and no
  entry carries a delivery state. When the upload fails, the error is logged and the
  page (list, draft text, selected file, dialog) and the store are as before. When the
  insert fails, the error is logged, the page is as before and no row is stored; a file
  uploaded for this send stays in the bucket. In both cases an answered refresh shows
  the stored messages of the user and no other. When upload and insert succeed, the
  store has the one new row (and the uploaded file), and the draft, the selected file
  and the dialog are cleared; the list is the refreshed one when the refresh is
  answered, and the list from before, with the fetch error logged, when it is not.
\<close>

theorem send_outcomes:
  "(fst (attach u env (selectedFile (fst p)) db) = Inl e \<longrightarrow>
      handleSendMessage adminId (Some u) env db p
        = ((fst p, snd p @ [ConsoleError ''Error sending message:'']), db))
   \<and> (fst (attach u env (selectedFile (fst p)) db) = Inr url \<and> \<not> insert_reached env \<longrightarrow>
      handleSendMessage adminId (Some u) env db p
        = ((fst p, snd p @ [ConsoleError ''Error sending message:'']),
           db\<lparr>message_images := message_images db @ uploaded u env (selectedFile (fst p))\<rparr>))
   \<and> (fst (attach u env (selectedFile (fst p)) db) = Inl e \<or> \<not> insert_reached env \<longrightarrow>
      messages (fst (fetchMessages (Some u) True
            (snd (handleSendMessage adminId (Some u) env db p))
            (fst (handleSendMessage adminId (Some u) env db p))))
        = rev (sort_key created_at (filter (involves u) (messages_tbl db))))
   \<and> (fst (attach u env (selectedFile (fst p)) db) = Inr url \<and> insert_reached env \<longrightarrow>
      snd (handleSendMessage adminId (Some u) env db p)
        = db\<lparr>message_images := message_images db @ uploaded u env (selectedFile (fst p)),
             messages_tbl := messages_tbl db @
               [\<lparr>message_id = assigned_id env, sender_id = uid u, receiver_id = adminId,
                 content = trim (newMessage (fst p)), image_url = or_null (Some url),
                 created_at = clock env\<rparr>]\<rparr>
      \<and> fst (handleSendMessage adminId (Some u) env db p)
        = (if fetch_reached env
           then (fst p\<lparr>newMessage := [], selectedFile := None, isModalOpen := False,
                   messages := rev (sort_key created_at (filter (involves u)
                     (messages_tbl (snd (handleSendMessage adminId (Some u) env db p)))))\<rparr>,
                 snd p)
           else (fst p\<lparr>newMessage := [], selectedFile := None, isModalOpen := False\<rparr>,
                 snd p @ [ConsoleError ''Error fetching messages:''])))"
proof (intro conjI impI)
  assume f: "fst (attach u env (selectedFile (fst p)) db) = Inl e"
  show "handleSendMessage adminId (Some u) env db p
        = ((fst p, snd p @ [ConsoleError ''Error sending message:'']), db)"
    by (rule handleSendMessage_attach_failure[OF f])
next
  assume i: "fst (attach u env (selectedFile (fst p)) db) = Inr url \<and> \<not> insert_reached env"
  show "handleSendMessage adminId (Some u) env db p
        = ((fst p, snd p @ [ConsoleError ''Error sending message:'']),
           db\<lparr>message_images := message_images db @ uploaded u env (selectedFile (fst p))\<rparr>)"
    using handleSendMessage_insert_failure[of u env p db url adminId] i by simp
next
  assume d: "fst (attach u env (selectedFile (fst p)) db) = Inl e \<or> \<not> insert_reached env"
  show "messages (fst (fetchMessages (Some u) True
            (snd (handleSendMessage adminId (Some u) env db p))
            (fst (handleSendMessage adminId (Some u) env db p))))
        = rev (sort_key created_at (filter (involves u) (messages_tbl db)))"
  proof (cases "fst (attach u env (selectedFile (fst p)) db)")
    case (Inl e')
    show ?thesis
      by (simp add: handleSendMessage_attach_failure[OF Inl] fetchMessages_answered)
  next
    case (Inr url')
    with d have "\<not> insert_reached env" by simp
    then show ?thesis
      by (simp add: handleSendMessage_insert_failure[OF Inr] fetchMessages_answered)
  qed
next
  assume s: "fst (attach u env (selectedFile (fst p)) db) = Inr url \<and> insert_reached env"
  note r = handleSendMessage_success[of u env p db url adminId]
  show "snd (handleSendMessage adminId (Some u) env db p)
        = db\<lparr>message_images := message_images db @ uploaded u env (selectedFile (fst p)),
             messages_tbl := messages_tbl db @
               [\<lparr>message_id = assigned_id env, sender_id = uid u, receiver_id = adminId,
                 content = trim (newMessage (fst p)), image_url = or_null (Some url),
                 created_at = clock env\<rparr>]\<rparr>"
    using r s by simp
  show "fst (handleSendMessage adminId (Some u) env db p)
        = (if fetch_reached env
           then (fst p\<lparr>newMessage := [], selectedFile := None, isModalOpen := False,
                   messages := rev (sort_key created_at (filter (involves u)
                     (messages_tbl (snd (handleSendMessage adminId (Some u) env db p)))))\<rparr>,
                 snd p)
           else (fst p\<lparr>newMessage := [], selectedFile := None, isModalOpen := False\<rparr>,
                 snd p @ [ConsoleError ''Error fetching messages:'']))"
    using r s by (simp add: fetchMessages_answered)
qed

theorem send_outcomes_witness:
  "handleSendMessage ''adm'' (Some alice) ((send_with True)\<lparr>upload_reached := False\<rparr>)
       (inbox []) (draft_with ''hello'' \<lparr>file_name = ''cat.png''\<rparr>)
     = ((fst (draft_with ''hello'' \<lparr>file_name = ''cat.png''\<rparr>),
         [ConsoleError ''Error sending message:'']), inbox [])
   \<and> handleSendMessage ''adm'' (Some alice) (send_with False) (inbox [])
       (draft_with ''hello'' \<lparr>file_name = ''cat.png''\<rparr>)
     = ((fst (draft_with ''hello'' \<lparr>file_name = ''cat.png''\<rparr>),
         [ConsoleError ''Error sending message:'']),
        (inbox [])\<lparr>message_images := [(''u1/0.42.png'', \<lparr>file_name = ''cat.png''\<rparr>)]\<rparr>)
   \<and> handleSendMessage ''adm'' (Some alice) ((send_with True)\<lparr>fetch_reached := False\<rparr>)
       (inbox []) (draft ''hello'')
     = ((messages_init, [ConsoleError ''Error fetching messages:'']),
        inbox [\<lparr>message_id = ''m9'', sender_id = ''u1'', receiver_id = ''adm'',
                content = ''hello'', image_url = None, created_at = 100\<rparr>])"
proof -
  let ?pic = "draft_with ''hello'' \<lparr>file_name = ''cat.png''\<rparr>"
  have path: "filePath alice (send_with b) \<lparr>file_name = ''cat.png''\<rparr> = ''u1/0.42.png''" for b
    by (simp add: filePath_def send_with_def alice_def)
  have a: "fst (attach alice ((send_with True)\<lparr>upload_reached := False\<rparr>)
      (selectedFile (fst ?pic)) (inbox [])) = Inl ''FetchError''"
    by (simp add: attach_def upload_def failed_def draft_with_def messages_init_def)
  have up: "upload_reached (send_with False)" and ins: "\<not> insert_reached (send_with False)"
    by (simp_all add: send_with_def)
  have b: "fst (attach alice (send_with False) (selectedFile (fst ?pic)) (inbox []))
      = Inr (getPublicUrl (send_with False) ''u1/0.42.png'')"
    by (simp add: attach_def upload_def ok_def path up draft_with_def messages_init_def
        inbox_def)
  have c: "fst (attach alice ((send_with True)\<lparr>fetch_reached := False\<rparr>)
      (selectedFile (fst (draft ''hello''))) (inbox [])) = Inr []"
    "insert_reached ((send_with True)\<lparr>fetch_reached := False\<rparr>)"
    "\<not> fetch_reached ((send_with True)\<lparr>fetch_reached := False\<rparr>)"
    by (simp_all add: attach_def draft_def messages_init_def send_with_def)
  have t: "trim ''hello'' = ''hello''"
    by (simp add: trim_def white_space_def leading_def strip.simps)
  have u: "uploaded alice (send_with False) (Some \<lparr>file_name = ''cat.png''\<rparr>)
      = [(''u1/0.42.png'', \<lparr>file_name = ''cat.png''\<rparr>)]"
    by (simp add: uploaded_def path)
  have "handleSendMessage ''adm'' (Some alice) ((send_with True)\<lparr>upload_reached := False\<rparr>)
       (inbox []) ?pic
     = ((fst ?pic, [ConsoleError ''Error sending message:'']), inbox [])"
    using a send_outcomes[where u = alice and p = ?pic and db = "inbox []" and adminId = "''adm''"
        and env = "(send_with True)\<lparr>upload_reached := False\<rparr>" and e = "''FetchError''"
        and url = "[]"]
    by (simp add: draft_with_def)
  moreover have "handleSendMessage ''adm'' (Some alice) (send_with False) (inbox []) ?pic
     = ((fst ?pic, [ConsoleError ''Error sending message:'']),
        (inbox [])\<lparr>message_images := [(''u1/0.42.png'', \<lparr>file_name = ''cat.png''\<rparr>)]\<rparr>)"
    using b ins send_outcomes[where u = alice and p = ?pic and db = "inbox []"
        and adminId = "''adm''" and env = "send_with False" and e = "''FetchError''"
        and url = "getPublicUrl (send_with False) ''u1/0.42.png''"]
    by (simp add: u draft_with_def inbox_def)
  moreover have "handleSendMessage ''adm'' (Some alice)
       ((send_with True)\<lparr>fetch_reached := False\<rparr>) (inbox []) (draft ''hello'')
     = ((messages_init, [ConsoleError ''Error fetching messages:'']),
        inbox [\<lparr>message_id = ''m9'', sender_id = ''u1'', receiver_id = ''adm'',
                content = ''hello'', image_url = None, created_at = 100\<rparr>])"
    using c send_outcomes[where u = alice and p = "draft ''hello''" and db = "inbox []"
        and adminId = "''adm''" and env = "(send_with True)\<lparr>fetch_reached := False\<rparr>"
        and e = "''FetchError''" and url = "[]"]
    by (simp add: t uploaded_def prod_eq_iff send_with_def inbox_def alice_def draft_def
        messages_init_def)
  ultimately show ?thesis
    by simp
qed

text \<open>
  Claim C9. Whenever a send stores a row, that row is the one new row of the store, its
  sender is the current user and its receiver is \<open>adminId\<close>, whoever the resolved
  counterpart of the page is and whatever the role of the sender.
\<close>

theorem receiver_is_adminId:
  assumes "fst (attach u env (selectedFile (fst p)) db) = Inr url" "insert_reached env"
  shows "length (messages_tbl (snd (handleSendMessage adminId (Some u) env db p)))
           = Suc (length (messages_tbl db))
       \<and> take (length (messages_tbl db))
             (messages_tbl (snd (handleSendMessage adminId (Some u) env db p)))
           = messages_tbl db
       \<and> receiver_id (last (messages_tbl (snd (handleSendMessage adminId (Some u) env db p))))
           = adminId
       \<and> sender_id (last (messages_tbl (snd (handleSendMessage adminId (Some u) env db p))))
           = uid u"
  by (simp add: handleSendMessage_success[OF assms])

theorem receiver_is_adminId_witness:
  "role boss = Some ''admin''
   \<and> adminUser (messages_init\<lparr>adminUser := Some alice, newMessage := ''hello''\<rparr>) = Some alice
   \<and> receiver_id (last (messages_tbl (snd (handleSendMessage ''admin-0'' (Some boss)
        (send_with True) (inbox [])
        (messages_init\<lparr>adminUser := Some alice, newMessage := ''hello''\<rparr>, [])))))
     = ''admin-0''"
proof -
  have a: "fst (attach boss (send_with True)
      (selectedFile (fst (messages_init\<lparr>adminUser := Some alice, newMessage := ''hello''\<rparr>, [])))
      (inbox [])) = Inr []"
    by (simp add: attach_def messages_init_def)
  have b: "insert_reached (send_with True)"
    by (simp add: send_with_def)
  show ?thesis
    using receiver_is_adminId[OF a b, of "''admin-0''"]
    by (simp add: boss_def)
qed

section \<open>The subscription effect without a user\<close>

text \<open>
  Claim C10. With no user the fetch inside the first effect returns at its guard, but the
  effect goes on to build the filter, reads \<open>user.id\<close> and faults. With a user the effect
  completes and yields the subscription.
\<close>

theorem effect_faults_without_user:
  "messages_effect None reached db p
     = Inl (TypeError ''Cannot read properties of null (reading id)'')
   \<and> fetchMessages_effect None reached db p = p
   \<and> messages_effect (Some u) reached db p
       = Inr (fetchMessages_effect (Some u) reached db p,
              \<lparr>channel = ''messages'',
               row_filter = ''sender_id=eq.'' @ uid u @ '' OR receiver_id=eq.'' @ uid u\<rparr>)"
  by (simp add: messages_effect_def realtime_filter_def fetchMessages_effect_def Let_def)

theorem effect_faults_without_user_witness:
  "messages_effect None True (inbox []) blank
     = Inl (TypeError ''Cannot read properties of null (reading id)'')
   \<and> messages_effect (Some alice) True (inbox []) blank
     = Inr (blank, \<lparr>channel = ''messages'',
                    row_filter = ''sender_id=eq.u1 OR receiver_id=eq.u1''\<rparr>)"
proof -
  have "fetchMessages_effect (Some alice) True (inbox []) blank = blank"
    by (simp add: fetch_defs inbox_def blank_def messages_init_def)
  then show ?thesis
    using effect_faults_without_user[of True "inbox []" blank alice]
    by (simp add: alice_def)
qed

section \<open>The counterpart of an administrator\<close>

text \<open>
  Claim C5 as stated asks for the user of the most recently created qualifying request.
  The store holds the request of \<open>alice\<close> (created at 10) before the request of
  \<open>carol\<close> (created at 20); both qualify. The page resolves \<open>alice\<close>; the most recent
  qualifying request is the one of \<open>carol\<close>.
\<close>

theorem admin_counterpart_not_latest:
  "adminUser (fst (loadAdminUser (Some boss) applicants online blank)) = Some alice
   \<and> resolve_spec applicants = Some carol
   \<and> alice \<noteq> carol"
  by (simp add: loadAdminUser_def qualifying_query_def qualifying_def getUserById_def
      resolve_spec_def transport_def limit_def order_def ok_def failed_def
      applicants_def boss_def alice_def carol_def online_def blank_def messages_init_def)

text \<open>
  Claim C5, amended. For an administrator whose two calls are answered, the counterpart
  is the directory entry of the user of the first qualifying (pending or approved)
  request in the order the store returns the rows; the query asks for no order, so the
  creation time plays no part.
\<close>

theorem admin_counterpart_first_row:
  assumes "role u = Some ''admin''" "reach 0" "reach 1"
    and "filter qualifying (user_requests db) = r # rs"
    and "find (\<lambda>x. uid x = user_id r) (users_dir db) = Some c"
  shows "loadAdminUser (Some u) db reach p
           = (fst p\<lparr>adminUser := Some c, isLoading := False\<rparr>, snd p)"
  using assms
  by (simp add: loadAdminUser_def qualifying_query_def getUserById_def transport_def limit_def
      ok_def Let_def)

theorem admin_counterpart_first_row_witness:
  "loadAdminUser (Some boss) applicants online blank
     = (fst blank\<lparr>adminUser := Some alice, isLoading := False\<rparr>, snd blank)"
proof -
  have q: "filter qualifying (user_requests applicants)
      = \<lparr>request_id = ''r1'', user_id = ''u1'', status = ''pending'', requested_at = 10\<rparr>
        # [\<lparr>request_id = ''r2'', user_id = ''u2'', status = ''approved'', requested_at = 20\<rparr>]"
    by (simp add: applicants_def qualifying_def)
  have d: "find (\<lambda>x. uid x = user_id
        \<lparr>request_id = ''r1'', user_id = ''u1'', status = ''pending'', requested_at = 10\<rparr>)
      (users_dir applicants) = Some alice"
    by (simp add: applicants_def boss_def alice_def carol_def)
  have a: "role boss = Some ''admin''"
    by (simp add: boss_def)
  have on: "online 0" "online 1"
    by (simp_all add: online_def)
  show ?thesis
    by (rule admin_counterpart_first_row[OF a on q d])
qed

end
